theory Spec2Isabelle
  imports Main "HOL-Library.Sublist" "HOL-Library.While_Combinator"
begin

section \<open>Strings\<close>

text \<open>
  URLs are ASCII strings. \<open>str.lower()\<close> maps the letters \<open>A\<close>..\<open>Z\<close> to
  \<open>a\<close>..\<open>z\<close> and leaves every other character alone; \<open>str.rstrip(chars)\<close> removes
  every trailing character that occurs in \<open>chars\<close>; \<open>needle in haystack\<close> is the
  substring test.
\<close>

definition upper_letters :: string where
  "upper_letters = ''ABCDEFGHIJKLMNOPQRSTUVWXYZ''"

definition lower_letters :: string where
  "lower_letters = ''abcdefghijklmnopqrstuvwxyz''"

definition lower_char :: "char \<Rightarrow> char" where
  "lower_char c = (case map_of (zip upper_letters lower_letters) c of None \<Rightarrow> c | Some d \<Rightarrow> d)"

definition lower :: "string \<Rightarrow> string" where
  "lower s = map lower_char s"

definition rstrip :: "string \<Rightarrow> string \<Rightarrow> string" where
  "rstrip chars s = rev (dropWhile (\<lambda>c. c \<in> set chars) (rev s))"

definition lstrip :: "string \<Rightarrow> string \<Rightarrow> string" where
  "lstrip chars s = dropWhile (\<lambda>c. c \<in> set chars) s"

definition whitespace :: string where
  "whitespace = [CHR '' '', CHR 0x09, CHR 0x0A, CHR 0x0B, CHR 0x0C, CHR 0x0D]"

definition strip :: "string \<Rightarrow> string" where
  "strip s = rstrip whitespace (lstrip whitespace s)"

definition str_in :: "string \<Rightarrow> string \<Rightarrow> bool" where
  "str_in needle haystack = sublist needle haystack"

definition startswith :: "string \<Rightarrow> string \<Rightarrow> bool" where
  "startswith s p = prefix p s"

section \<open>URL normalisation and filtering\<close>

definition EXCLUDED_EXTENSIONS :: "string list" where
  "EXCLUDED_EXTENSIONS =
    [''png'', ''jpg'', ''jpeg'', ''gif'', ''webp'', ''svg'', ''ico'', ''bmp'',
     ''pdf'', ''doc'', ''docx'', ''xls'', ''xlsx'', ''ppt'', ''pptx'',
     ''zip'', ''rar'', ''7z'', ''tar'', ''gz'',
     ''mp3'', ''mp4'', ''avi'', ''mov'', ''wmv'', ''flv'',
     ''css'', ''js'', ''woff'', ''woff2'', ''ttf'', ''eot'']"

definition EXCLUDED_PATHS :: "string list" where
  "EXCLUDED_PATHS =
    [''cart'', ''checkout'', ''search'', ''login'', ''logout'', ''register'',
     ''terms-of-service'', ''privacy-policy'', ''wp-admin'', ''wp-login'',
     ''feed'', ''xmlrpc'', ''wp-json'', ''api'']"

text \<open>
  \<open>PAGINATION_PATTERNS\<close> is an alternation of literal strings compiled with
  \<open>re.IGNORECASE\<close>; \<open>search\<close> succeeds when one of the literals occurs in the link,
  letter case ignored.
\<close>

definition PAGINATION_PATTERNS :: "string list" where
  "PAGINATION_PATTERNS =
    [''?page='', ''?p='', ''?pg='', ''?pagenumber='', ''?start='', ''?offset='',
     ''/page/'', ''/p/'', ''/pages/'', ''#page='']"

definition pagination_search :: "string \<Rightarrow> bool" where
  "pagination_search link = list_ex (\<lambda>p. str_in p (lower link)) PAGINATION_PATTERNS"

definition normalize_url :: "string \<Rightarrow> string" where
  "normalize_url u = rstrip ''/'' (lower u)"

text \<open>
  The reading of \<open>normalize\<close> in the specification: lowercase, then remove one trailing
  \<open>/\<close> if there is one.
\<close>

definition normalize_single_strip :: "string \<Rightarrow> string" where
  "normalize_single_strip u =
     (let l = lower u in if l \<noteq> [] \<and> last l = CHR ''/'' then butlast l else l)"

datatype py_exception = HTTPError | ValueError | OtherException

text \<open>
  \<open>urllib.parse.urlparse\<close> belongs to the standard library. The model keeps the two
  components \<open>get_domain\<close> reads, as \<open>urlsplit\<close> computes them: leading control
  characters and spaces are dropped, tabs and line breaks are removed, the scheme is the
  text before the first \<open>:\<close> when it starts with a letter and consists of scheme
  characters, the network location follows \<open>//\<close> and ends before the first
  \<open>/\<close>, \<open>?\<close> or \<open>#\<close>, and a network location with an unmatched square bracket
  raises \<open>ValueError\<close>.
\<close>

definition scheme_chars :: string where
  "scheme_chars = lower_letters @ upper_letters @ ''0123456789+-.''"

definition c0_control_or_space :: string where
  "c0_control_or_space =
    [CHR 0x00, CHR 0x01, CHR 0x02, CHR 0x03, CHR 0x04, CHR 0x05, CHR 0x06, CHR 0x07,
     CHR 0x08, CHR 0x09, CHR 0x0A, CHR 0x0B, CHR 0x0C, CHR 0x0D, CHR 0x0E, CHR 0x0F,
     CHR 0x10, CHR 0x11, CHR 0x12, CHR 0x13, CHR 0x14, CHR 0x15, CHR 0x16, CHR 0x17,
     CHR 0x18, CHR 0x19, CHR 0x1A, CHR 0x1B, CHR 0x1C, CHR 0x1D, CHR 0x1E, CHR 0x1F,
     CHR '' '']"

definition unsafe_url_bytes :: string where
  "unsafe_url_bytes = [CHR 0x09, CHR 0x0D, CHR 0x0A]"

definition split_scheme :: "string \<Rightarrow> string \<times> string" where
  "split_scheme u =
     (let pre = takeWhile (\<lambda>c. c \<noteq> CHR '':'') u in
      if length pre < length u \<and> pre \<noteq> []
         \<and> hd pre \<in> set (lower_letters @ upper_letters)
         \<and> list_all (\<lambda>c. c \<in> set scheme_chars) pre
      then (lower pre, drop (Suc (length pre)) u)
      else ('''', u))"

definition urlparse :: "string \<Rightarrow> py_exception + (string \<times> string)" where
  "urlparse u0 =
     (let u1 = lstrip c0_control_or_space u0;
          u2 = filter (\<lambda>c. c \<notin> set unsafe_url_bytes) u1;
          (scheme, u3) = split_scheme u2
      in if take 2 u3 = ''//'' then
           (let netloc = takeWhile (\<lambda>c. c \<notin> set ''/?#'') (drop 2 u3) in
            if (CHR ''['' \<in> set netloc \<and> CHR '']'' \<notin> set netloc)
               \<or> (CHR '']'' \<in> set netloc \<and> CHR ''['' \<notin> set netloc)
            then Inl ValueError
            else Inr (scheme, netloc))
         else Inr (scheme, ''''))"

definition get_domain :: "string \<Rightarrow> py_exception + string" where
  "get_domain u =
     (case urlparse u of
        Inl e \<Rightarrow> Inl e
      | Inr (scheme, netloc) \<Rightarrow> Inr (scheme @ ''://'' @ netloc))"

definition sanitize_url :: "string \<Rightarrow> string" where
  "sanitize_url u =
     (if \<not> (startswith (lower u) ''http://'' \<or> startswith (lower u) ''https://'')
      then normalize_url (''https://'' @ u)
      else normalize_url u)"

definition is_valid_link :: "string \<Rightarrow> string \<Rightarrow> py_exception + bool" where
  "is_valid_link link domain =
     (case get_domain link of
        Inl e \<Rightarrow> Inl e
      | Inr d \<Rightarrow>
          Inr (if d \<noteq> domain then False
               else if str_in ''#'' link \<or> str_in ''?'' link then False
               else if pagination_search link then False
               else if list_ex (\<lambda>ext. str_in (''.'' @ ext) (lower link)) EXCLUDED_EXTENSIONS
                 then False
               else if list_ex (\<lambda>path. str_in path (lower link)) EXCLUDED_PATHS then False
               else True))"

section \<open>Data model\<close>

record PageData =
  url :: string
  status_code :: int
  title :: string
  meta_description :: string
  h1_tags :: "string list"
  h2_tags :: "string list"

record CrawlStats =
  pages_crawled :: int
  pages_failed :: int
  pages_filtered :: int
  total_links_found :: int

section \<open>The environment\<close>

text \<open>
  What \<open>fetch_page\<close> and \<open>crawl_site\<close> take from outside the repository:
  \<^item> \<open>http_get\<close>: \<open>client.get(url, follow_redirects=True)\<close>, which raises or returns a
    response (status code, headers, body text);
  \<^item> \<open>parse_html\<close>: \<open>BeautifulSoup(response.text, "lxml")\<close> together with the lookups
    the code makes on the document: the title string (absent when there is no title tag
    or it has no string), the \<open>content\<close> attribute of the \<open>description\<close> meta tag, the
    texts of the \<open>h1\<close> and \<open>h2\<close> tags as \<open>get_text(strip=True)\<close> returns them, and
    the \<open>href\<close> of every anchor that has one;
  \<^item> \<open>urljoin\<close>: \<open>urllib.parse.urljoin\<close>, which raises \<open>ValueError\<close> on some
    malformed references;
  \<^item> \<open>pop_choice\<close>: which element \<open>set.pop()\<close> removes, as an index into the current
    content of the set;
  \<^item> \<open>iter_choice\<close>: the order in which iterating over a set visits its elements,
    given the same way.
\<close>

record response =
  resp_status_code :: int
  resp_headers :: "string \<rightharpoonup> string"
  resp_text :: string

record soup =
  soup_title_string :: "string option"
  soup_meta_content :: "string option"
  soup_h1 :: "string list"
  soup_h2 :: "string list"
  soup_hrefs :: "string list"

record env =
  http_get :: "string \<Rightarrow> py_exception + response"
  parse_html :: "string \<Rightarrow> py_exception + soup"
  urljoin :: "string \<Rightarrow> string \<Rightarrow> py_exception + string"
  pop_choice :: "string list \<Rightarrow> nat"
  iter_choice :: "string list \<Rightarrow> nat"

section \<open>Python sets\<close>

text \<open>
  A Python set is a list without duplicates: \<open>add\<close> appends an element that is not
  there yet, \<open>pop\<close> removes the element at the position the environment chooses (the
  code calls it on a non-empty set only), \<open>len\<close> is the length, and iteration draws
  the elements one by one in an order the environment chooses.
\<close>

definition set_add :: "'a \<Rightarrow> 'a list \<Rightarrow> 'a list" where
  "set_add x xs = (if x \<in> set xs then xs else xs @ [x])"

definition set_pop :: "('a list \<Rightarrow> nat) \<Rightarrow> 'a list \<Rightarrow> 'a \<times> 'a list" where
  "set_pop choice xs =
     (let i = choice xs mod length xs in (xs ! i, take i xs @ drop (Suc i) xs))"

lemma set_pop_shorter:
  assumes "xs \<noteq> []" and "set_pop choice xs = (x, rest)"
  shows "Suc (length rest) = length xs"
proof -
  have "choice xs mod length xs < length xs" using assms(1) by simp
  moreover have "rest = take (choice xs mod length xs) xs @ drop (Suc (choice xs mod length xs)) xs"
    using assms(2) by (simp add: set_pop_def Let_def)
  ultimately show ?thesis by simp
qed

function set_iter :: "('a list \<Rightarrow> nat) \<Rightarrow> 'a list \<Rightarrow> 'a list" where
  "set_iter choice xs =
     (if xs = [] then []
      else (let (x, rest) = set_pop choice xs in x # set_iter choice rest))"
  by pat_completeness auto

termination
proof (relation "measure (\<lambda>(choice, xs). length xs)")
  show "wf (measure (\<lambda>(choice :: 'a list \<Rightarrow> nat, xs). length xs))" by simp
next
  fix choice :: "'a list \<Rightarrow> nat" and xs :: "'a list" and p x rest
  assume "xs \<noteq> []" and "p = set_pop choice xs" and "(x, rest) = p"
  then have "set_pop choice xs = (x, rest)" by simp
  with \<open>xs \<noteq> []\<close> have "Suc (length rest) = length xs" by (rule set_pop_shorter)
  then show "((choice, rest), (choice, xs)) \<in> measure (\<lambda>(choice, xs). length xs)" by simp
qed

section \<open>Page fetcher\<close>

text \<open>The loop over the anchors (lines 153 to 157); an exception leaves it at once.\<close>

fun collect_links ::
  "env \<Rightarrow> string \<Rightarrow> string \<Rightarrow> string list \<Rightarrow> string list \<Rightarrow> py_exception + string list"
where
  "collect_links E u domain [] links = Inr links"
| "collect_links E u domain (href # hrefs) links =
     (case urljoin E u href of
        Inl e \<Rightarrow> Inl e
      | Inr joined \<Rightarrow>
          (let full_url = normalize_url joined in
           case is_valid_link full_url domain of
             Inl e \<Rightarrow> Inl e
           | Inr ok \<Rightarrow>
               collect_links E u domain hrefs (if ok then links @ [full_url] else links)))"

definition content_type_of :: "response \<Rightarrow> string" where
  "content_type_of r = (case resp_headers r ''content-type'' of None \<Rightarrow> [] | Some v \<Rightarrow> v)"

definition make_page_data :: "string \<Rightarrow> response \<Rightarrow> soup \<Rightarrow> PageData" where
  "make_page_data u r sp =
     (let page_data =
        \<lparr> url = u,
          status_code = resp_status_code r,
          title = (case soup_title_string sp of Some t \<Rightarrow> strip t | None \<Rightarrow> []),
          meta_description = [],
          h1_tags = soup_h1 sp,
          h2_tags = soup_h2 sp \<rparr>
      in case soup_meta_content sp of
           Some c \<Rightarrow> if c \<noteq> [] then page_data\<lparr>meta_description := strip c\<rparr> else page_data
         | None \<Rightarrow> page_data)"

text \<open>The body of the \<open>try\<close> block of \<open>fetch_page\<close> (lines 132 to 159).\<close>

definition fetch_page_try ::
  "env \<Rightarrow> string \<Rightarrow> string \<Rightarrow> py_exception + (PageData option \<times> string list)"
where
  "fetch_page_try E u domain =
     (case http_get E u of
        Inl e \<Rightarrow> Inl e
      | Inr r \<Rightarrow>
          if \<not> str_in ''text/html'' (content_type_of r) then Inr (None, [])
          else
            (case parse_html E (resp_text r) of
               Inl e \<Rightarrow> Inl e
             | Inr sp \<Rightarrow>
                 (case collect_links E u domain (soup_hrefs sp) [] of
                    Inl e \<Rightarrow> Inl e
                  | Inr links \<Rightarrow> Inr (Some (make_page_data u r sp), links))))"

text \<open>The two handlers (lines 161 to 164) turn every exception into \<open>(None, [])\<close>.\<close>

definition fetch_page :: "env \<Rightarrow> string \<Rightarrow> string \<Rightarrow> PageData option \<times> string list" where
  "fetch_page E u domain =
     (case fetch_page_try E u domain of
        Inl HTTPError \<Rightarrow> (None, [])
      | Inl _ \<Rightarrow> (None, [])
      | Inr result \<Rightarrow> result)"

section \<open>Crawl engine\<close>

text \<open>
  The batch loop of \<open>crawl_site\<close> (lines 197 to 223) as a machine that takes one
  step per loop test or loop body. The control points are the head of the outer loop,
  the head of the batch selection loop (with the batch built so far), the head of the
  loop over the responses (with the responses still to process) and the head of the loop
  over the links of a page (with the links still to process). \<open>dispatched\<close> records
  the batches handed to \<open>asyncio.gather\<close>, in order.
\<close>

datatype control =
    LoopHead
  | Select "string list"
  | Reduce "(PageData option \<times> string list) list"
  | Links "string list" "(PageData option \<times> string list) list"
  | Finished

record crawl_state =
  visited :: "string list"
  to_visit :: "string list"
  results :: "PageData list"
  stats :: CrawlStats
  dispatched :: "string list list"
  control :: control

definition init_state :: "string \<Rightarrow> crawl_state" where
  "init_state start_url =
     \<lparr> visited = [],
       to_visit = [start_url],
       results = [],
       stats = \<lparr> pages_crawled = 0, pages_failed = 0, pages_filtered = 0,
                 total_links_found = 0 \<rparr>,
       dispatched = [],
       control = LoopHead \<rparr>"

text \<open>Line 197: the test of the outer loop.\<close>

definition loop_head :: "int \<Rightarrow> crawl_state \<Rightarrow> crawl_state" where
  "loop_head max_pages s =
     (if to_visit s \<noteq> [] \<and> pages_crawled (stats s) < max_pages
      then s\<lparr>control := Select []\<rparr>
      else s\<lparr>control := Finished\<rparr>)"

text \<open>
  Lines 199 to 209: one iteration of the selection loop, or, when its test fails, the
  \<open>break\<close> on an empty batch or the dispatch of the batch.
\<close>

definition select_step ::
  "env \<Rightarrow> string \<Rightarrow> int \<Rightarrow> string list \<Rightarrow> crawl_state \<Rightarrow> crawl_state"
where
  "select_step E domain concurrency batch s =
     (if to_visit s \<noteq> [] \<and> int (length batch) < concurrency then
        (let (u, rest) = set_pop (pop_choice E) (to_visit s) in
         if u \<notin> set (visited s)
         then s\<lparr>to_visit := rest, visited := set_add u (visited s),
                control := Select (set_add u batch)\<rparr>
         else s\<lparr>to_visit := rest, control := Select batch\<rparr>)
      else if batch = [] then s\<lparr>control := Finished\<rparr>
      else s\<lparr>dispatched := dispatched s @ [batch],
             control := Reduce (map (\<lambda>u. fetch_page E u domain)
                                 (set_iter (iter_choice E) batch))\<rparr>)"

text \<open>Lines 211 to 215 and 220 to 221: one response.\<close>

definition reduce_step ::
  "PageData option \<times> string list \<Rightarrow> (PageData option \<times> string list) list
     \<Rightarrow> crawl_state \<Rightarrow> crawl_state"
where
  "reduce_step r rs s =
     (case fst r of
        Some page_data \<Rightarrow>
          s\<lparr>results := results s @ [page_data],
            stats := (stats s)\<lparr>pages_crawled := pages_crawled (stats s) + 1,
                               total_links_found :=
                                 total_links_found (stats s) + int (length (snd r))\<rparr>,
            control := Links (snd r) rs\<rparr>
      | None \<Rightarrow>
          s\<lparr>stats := (stats s)\<lparr>pages_filtered := pages_filtered (stats s) + 1\<rparr>,
            control := Reduce rs\<rparr>)"

text \<open>Lines 217 to 219: one link of a crawled page.\<close>

definition link_step ::
  "int \<Rightarrow> string \<Rightarrow> string list \<Rightarrow> (PageData option \<times> string list) list
     \<Rightarrow> crawl_state \<Rightarrow> crawl_state"
where
  "link_step max_pages link links rs s =
     (if link \<notin> set (visited s)
         \<and> int (length (to_visit s)) + int (length (visited s)) < max_pages * 2
      then s\<lparr>to_visit := set_add link (to_visit s), control := Links links rs\<rparr>
      else s\<lparr>control := Links links rs\<rparr>)"

definition step :: "env \<Rightarrow> string \<Rightarrow> int \<Rightarrow> int \<Rightarrow> crawl_state \<Rightarrow> crawl_state" where
  "step E domain max_pages concurrency s =
     (case control s of
        LoopHead \<Rightarrow> loop_head max_pages s
      | Select batch \<Rightarrow> select_step E domain concurrency batch s
      | Reduce [] \<Rightarrow> s\<lparr>control := LoopHead\<rparr>
      | Reduce (r # rs) \<Rightarrow> reduce_step r rs s
      | Links [] rs \<Rightarrow> s\<lparr>control := Reduce rs\<rparr>
      | Links (link # links) rs \<Rightarrow> link_step max_pages link links rs s
      | Finished \<Rightarrow> s)"

text \<open>The state after \<open>n\<close> steps of a run: the observation points of the run.\<close>

definition run :: "env \<Rightarrow> string \<Rightarrow> int \<Rightarrow> int \<Rightarrow> string \<Rightarrow> nat \<Rightarrow> crawl_state" where
  "run E domain max_pages concurrency start_url n =
     (step E domain max_pages concurrency ^^ n) (init_state start_url)"

text \<open>The loop runs until the machine is at \<open>Finished\<close>; \<open>None\<close> is a loop that never is.\<close>

definition crawl_loop ::
  "env \<Rightarrow> string \<Rightarrow> int \<Rightarrow> int \<Rightarrow> crawl_state \<Rightarrow> crawl_state option"
where
  "crawl_loop E domain max_pages concurrency s =
     while_option (\<lambda>s. control s \<noteq> Finished) (step E domain max_pages concurrency) s"

definition crawl_site ::
  "env \<Rightarrow> string \<Rightarrow> int \<Rightarrow> int \<Rightarrow> py_exception + (PageData list \<times> CrawlStats) option"
where
  "crawl_site E start_url max_pages concurrency =
     (case get_domain start_url of
        Inl e \<Rightarrow> Inl e
      | Inr domain \<Rightarrow>
          Inr (map_option (\<lambda>s. (results s, stats s))
                 (crawl_loop E domain max_pages concurrency (init_state start_url))))"

text \<open>
  The command \<open>crawl\<close> (lines 289 to 318): it raises what \<open>get_domain\<close> raises, leaves
  with \<open>typer.Exit(1)\<close> when the result list is empty, and exports the results
  otherwise. Console output and the CSV file are not modelled; \<open>None\<close> is a crawl
  that does not return.
\<close>

datatype outcome = Raised py_exception | Exit int | Exported "PageData list"

definition crawl :: "env \<Rightarrow> string \<Rightarrow> int \<Rightarrow> int \<Rightarrow> outcome option" where
  "crawl E u max_pages concurrency =
     (let start_url = sanitize_url u in
      case get_domain start_url of
        Inl e \<Rightarrow> Some (Raised e)
      | Inr domain \<Rightarrow>
          (case crawl_site E start_url max_pages concurrency of
             Inl e \<Rightarrow> Some (Raised e)
           | Inr None \<Rightarrow> None
           | Inr (Some (rs, st)) \<Rightarrow>
               if rs = [] then Some (Exit 1) else Some (Exported rs)))"

section \<open>Properties of normalisation\<close>

lemma lower_letters_not_upper: "d \<in> set lower_letters \<Longrightarrow> d \<notin> set upper_letters"
  unfolding upper_letters_def lower_letters_def by auto

lemma lower_char_fixed: "d \<in> set lower_letters \<Longrightarrow> lower_char d = d"
proof -
  assume "d \<in> set lower_letters"
  then have "d \<notin> set upper_letters" by (rule lower_letters_not_upper)
  then have "map_of (zip upper_letters lower_letters) d = None"
    by (simp add: map_of_eq_None_iff upper_letters_def lower_letters_def)
  then show ?thesis by (simp add: lower_char_def)
qed

lemma lower_char_idem: "lower_char (lower_char c) = lower_char c"
proof (cases "map_of (zip upper_letters lower_letters) c")
  case None
  then show ?thesis by (simp add: lower_char_def)
next
  case (Some d)
  then have "(c, d) \<in> set (zip upper_letters lower_letters)" by (rule map_of_SomeD)
  then have "d \<in> set lower_letters" by (rule set_zip_rightD)
  then have "lower_char d = d" by (rule lower_char_fixed)
  with Some show ?thesis by (simp add: lower_char_def)
qed

lemma lower_idem: "lower (lower s) = lower s"
  by (simp add: lower_def lower_char_idem)

lemma lower_rev: "lower (rev s) = rev (lower s)"
  by (simp add: lower_def rev_map)

lemma lower_dropWhile_fixed:
  "(\<And>c. c \<in> set s \<Longrightarrow> lower_char c = c) \<Longrightarrow> lower (dropWhile P s) = dropWhile P s"
  unfolding lower_def by (rule map_idI) (auto dest: set_dropWhileD)

lemma lower_rstrip_lower: "lower (rstrip chars (lower s)) = rstrip chars (lower s)"
proof -
  have "\<And>c. c \<in> set (rev (lower s)) \<Longrightarrow> lower_char c = c"
    by (auto simp: lower_def lower_char_idem)
  then have "lower (dropWhile (\<lambda>c. c \<in> set chars) (rev (lower s)))
      = dropWhile (\<lambda>c. c \<in> set chars) (rev (lower s))"
    by (rule lower_dropWhile_fixed)
  then show ?thesis by (simp add: rstrip_def lower_rev)
qed

lemma rstrip_idem: "rstrip chars (rstrip chars s) = rstrip chars s"
  by (simp add: rstrip_def)

lemma rstrip_decompose:
  "s = rstrip chars s @ rev (takeWhile (\<lambda>c. c \<in> set chars) (rev s))"
  unfolding rstrip_def by (metis rev_append rev_rev_ident takeWhile_dropWhile_id)

lemma rstrip_last: "rstrip chars s \<noteq> [] \<Longrightarrow> last (rstrip chars s) \<notin> set chars"
proof -
  assume ne: "rstrip chars s \<noteq> []"
  then have d: "dropWhile (\<lambda>c. c \<in> set chars) (rev s) \<noteq> []" by (simp add: rstrip_def)
  then have "\<not> (hd (dropWhile (\<lambda>c. c \<in> set chars) (rev s)) \<in> set chars)"
    by (rule hd_dropWhile)
  with d show ?thesis by (simp add: rstrip_def last_rev)
qed

lemma slashes_replicate:
  "takeWhile (\<lambda>c. c \<in> set ''/'') xs = replicate (length (takeWhile (\<lambda>c. c \<in> set ''/'') xs)) CHR ''/''"
  by (induction xs) auto

text \<open>
  C7, as the code has it: \<open>normalize_url u\<close> is \<open>u\<close> lowercased with every trailing
  \<open>/\<close> removed. The lowercased URL is the result followed by a run of \<open>k\<close> slashes,
  and the result itself does not end in a slash.
\<close>

theorem normalize_url_strips_all_slashes:
  "\<exists>k. lower u = normalize_url u @ replicate k CHR ''/''
       \<and> (normalize_url u = [] \<or> last (normalize_url u) \<noteq> CHR ''/'')"
proof -
  let ?t = "takeWhile (\<lambda>c. c \<in> set ''/'') (rev (lower u))"
  have "lower u = normalize_url u @ rev ?t"
    unfolding normalize_url_def by (rule rstrip_decompose)
  moreover have "?t = replicate (length ?t) CHR ''/''" by (rule slashes_replicate)
  ultimately have "lower u = normalize_url u @ replicate (length ?t) CHR ''/''"
    by (metis rev_replicate)
  moreover have "normalize_url u = [] \<or> last (normalize_url u) \<noteq> CHR ''/''"
    using rstrip_last [of "''/''" "lower u"] by (auto simp: normalize_url_def)
  ultimately show ?thesis by blast
qed

text \<open>
  C7 as stated fails: on a URL ending in two slashes the code removes both, the
  single-strip reading removes one.
\<close>

theorem normalize_url_single_strip_counterexample:
  "normalize_url ''http://a.com//'' = ''http://a.com''
   \<and> normalize_single_strip ''http://a.com//'' = ''http://a.com/''
   \<and> normalize_url ''http://a.com//'' \<noteq> normalize_single_strip ''http://a.com//''"
  by (simp add: normalize_url_def normalize_single_strip_def rstrip_def lower_def lower_char_def
      upper_letters_def lower_letters_def)

text \<open>
  C8: \<open>normalize_url\<close> is idempotent, and the two spellings of the example URL have
  the same normal form.
\<close>

theorem normalize_url_idempotent:
  "normalize_url (normalize_url u) = normalize_url u
   \<and> normalize_url ''HTTP://Example.com/Foo/'' = normalize_url ''http://example.com/foo''"
proof
  show "normalize_url (normalize_url u) = normalize_url u"
    by (simp add: normalize_url_def lower_rstrip_lower rstrip_idem)
  show "normalize_url ''HTTP://Example.com/Foo/'' = normalize_url ''http://example.com/foo''"
    by (simp add: normalize_url_def rstrip_def lower_def lower_char_def
        upper_letters_def lower_letters_def)
qed

section \<open>Properties of the link filter\<close>

lemmas url_eval =
  is_valid_link_def get_domain_def urlparse_def split_scheme_def lstrip_def
  c0_control_or_space_def unsafe_url_bytes_def scheme_chars_def lower_def lower_char_def
  upper_letters_def lower_letters_def str_in_def sublist_code pagination_search_def
  PAGINATION_PATTERNS_def EXCLUDED_EXTENSIONS_def EXCLUDED_PATHS_def normalize_url_def
  rstrip_def

text \<open>
  C9: against the site domain \<open>https://site.com\<close> the filter rejects the image and
  the cart page and accepts the blog post; none of the three calls raises.
\<close>

theorem is_valid_link_examples:
  "is_valid_link ''https://site.com/img.png'' ''https://site.com'' = Inr False
   \<and> is_valid_link ''https://site.com/cart'' ''https://site.com'' = Inr False
   \<and> is_valid_link ''https://site.com/blog/post-1'' ''https://site.com'' = Inr True"
  by (simp add: url_eval)

section \<open>Properties of Python sets\<close>

declare set_iter.simps [simp del]

lemma set_pop_split:
  assumes "xs \<noteq> []" and "set_pop choice xs = (x, rest)"
  shows "\<exists>ys zs. xs = ys @ x # zs \<and> rest = ys @ zs"
proof -
  let ?i = "choice xs mod length xs"
  have i: "?i < length xs" using assms(1) by simp
  have x: "x = xs ! ?i" and rest: "rest = take ?i xs @ drop (Suc ?i) xs"
    using assms(2) by (simp_all add: set_pop_def Let_def)
  have "xs = take ?i xs @ xs ! ?i # drop (Suc ?i) xs"
    using i by (rule id_take_nth_drop)
  with x rest show ?thesis by blast
qed

lemma set_iter_Nil: "set_iter choice [] = []"
  by (subst set_iter.simps) simp

lemma set_iter_pop:
  "xs \<noteq> [] \<Longrightarrow> set_pop choice xs = (x, rest) \<Longrightarrow> set_iter choice xs = x # set_iter choice rest"
  by (subst set_iter.simps) simp

lemma set_iter_filter_length_aux:
  "length xs = n \<Longrightarrow> length (filter P (set_iter choice xs)) = length (filter P xs)"
proof (induction n arbitrary: xs)
  case 0
  then show ?case by (simp add: set_iter_Nil)
next
  case (Suc n)
  then have ne: "xs \<noteq> []" by auto
  obtain x rest where sp: "set_pop choice xs = (x, rest)" by (cases "set_pop choice xs")
  from set_pop_split [OF ne sp] obtain ys zs where xs: "xs = ys @ x # zs" and rest: "rest = ys @ zs"
    by (elim exE conjE)
  from Suc.prems have "length rest = n" by (simp add: xs rest)
  then have ih: "length (filter P (set_iter choice rest)) = length (filter P rest)"
    by (rule Suc.IH)
  have unf: "set_iter choice xs = x # set_iter choice rest"
    using ne sp by (rule set_iter_pop)
  have "length (filter P (set_iter choice xs)) = length (filter P (x # set_iter choice rest))"
    by (simp only: unf)
  also have "\<dots> = length (filter P (ys @ x # zs))"
    using ih by (simp add: rest)
  also have "\<dots> = length (filter P xs)"
    by (simp only: xs)
  finally show ?case .
qed

lemma set_iter_filter_length:
  "length (filter P (set_iter choice xs)) = length (filter P xs)"
  using set_iter_filter_length_aux [OF refl] .

lemma set_iter_length: "length (set_iter choice xs) = length xs"
  using set_iter_filter_length [of "\<lambda>x. True" choice xs] by simp

section \<open>Invariants of the crawl engine\<close>

text \<open>
  The batch being selected and the responses still to be processed, read off the control
  point.
\<close>

definition current_batch :: "crawl_state \<Rightarrow> string list" where
  "current_batch s = (case control s of Select batch \<Rightarrow> batch | _ \<Rightarrow> [])"

definition pending_responses :: "crawl_state \<Rightarrow> (PageData option \<times> string list) list" where
  "pending_responses s = (case control s of Reduce rs \<Rightarrow> rs | Links ls rs \<Rightarrow> rs | _ \<Rightarrow> [])"

definition sets_ok :: "crawl_state \<Rightarrow> bool" where
  "sets_ok s \<longleftrightarrow>
     distinct (visited s) \<and> distinct (to_visit s)
     \<and> set (visited s) \<inter> set (to_visit s) = {}
     \<and> distinct (concat (dispatched s) @ current_batch s)
     \<and> set (concat (dispatched s) @ current_batch s) = set (visited s)"

lemma set_set_add: "set (set_add x xs) = insert x (set xs)"
  by (auto simp: set_add_def)

lemma distinct_set_add: "distinct xs \<Longrightarrow> distinct (set_add x xs)"
  by (simp add: set_add_def)

lemma set_add_new: "x \<notin> set xs \<Longrightarrow> set_add x xs = xs @ [x]"
  by (simp add: set_add_def)

lemma length_set_add: "length (set_add x xs) \<le> Suc (length xs)"
  by (simp add: set_add_def)

lemma step_LoopHead:
  "control s = LoopHead \<Longrightarrow> step E domain max_pages concurrency s = loop_head max_pages s"
  by (simp add: step_def)

lemma step_Select:
  "control s = Select batch \<Longrightarrow>
   step E domain max_pages concurrency s = select_step E domain concurrency batch s"
  by (simp add: step_def)

lemma step_Reduce_Nil:
  "control s = Reduce [] \<Longrightarrow> step E domain max_pages concurrency s = s\<lparr>control := LoopHead\<rparr>"
  by (simp add: step_def)

lemma step_Reduce_Cons:
  "control s = Reduce (r # rs) \<Longrightarrow> step E domain max_pages concurrency s = reduce_step r rs s"
  by (simp add: step_def)

lemma step_Links_Nil:
  "control s = Links [] rs \<Longrightarrow> step E domain max_pages concurrency s = s\<lparr>control := Reduce rs\<rparr>"
  by (simp add: step_def)

lemma step_Links_Cons:
  "control s = Links (link # links) rs \<Longrightarrow>
   step E domain max_pages concurrency s = link_step max_pages link links rs s"
  by (simp add: step_def)

lemma step_Finished:
  "control s = Finished \<Longrightarrow> step E domain max_pages concurrency s = s"
  by (simp add: step_def)

text \<open>The four ways a step at the head of the selection loop can go.\<close>

lemma select_step_cases:
  assumes "control s = Select batch"
  obtains
    (pop_new) u ys zs where "to_visit s = ys @ u # zs" "u \<notin> set (visited s)"
      "int (length batch) < concurrency"
      "select_step E domain concurrency batch s =
         s\<lparr>to_visit := ys @ zs, visited := set_add u (visited s),
           control := Select (set_add u batch)\<rparr>"
  | (pop_old) u ys zs where "to_visit s = ys @ u # zs" "u \<in> set (visited s)"
      "int (length batch) < concurrency"
      "select_step E domain concurrency batch s = s\<lparr>to_visit := ys @ zs, control := Select batch\<rparr>"
  | (stop) "batch = []"
      "select_step E domain concurrency batch s = s\<lparr>control := Finished\<rparr>"
  | (dispatch) "batch \<noteq> []" "\<not> (to_visit s \<noteq> [] \<and> int (length batch) < concurrency)"
      "select_step E domain concurrency batch s =
         s\<lparr>dispatched := dispatched s @ [batch],
           control := Reduce (map (\<lambda>u. fetch_page E u domain)
                               (set_iter (iter_choice E) batch))\<rparr>"
proof (cases "to_visit s \<noteq> [] \<and> int (length batch) < concurrency")
  case True
  obtain u rest where sp: "set_pop (pop_choice E) (to_visit s) = (u, rest)"
    by (cases "set_pop (pop_choice E) (to_visit s)")
  from True have ne: "to_visit s \<noteq> []" by simp
  from set_pop_split [OF ne sp] obtain ys zs
    where xs: "to_visit s = ys @ u # zs" and rest: "rest = ys @ zs"
    by (elim exE conjE)
  show ?thesis
  proof (cases "u \<in> set (visited s)")
    case False
    have "select_step E domain concurrency batch s =
         s\<lparr>to_visit := ys @ zs, visited := set_add u (visited s),
           control := Select (set_add u batch)\<rparr>"
      using True False sp by (simp add: select_step_def rest)
    with xs False True show ?thesis by (intro pop_new) simp_all
  next
    case old: True
    have "select_step E domain concurrency batch s = s\<lparr>to_visit := ys @ zs, control := Select batch\<rparr>"
      using True old sp by (simp add: select_step_def rest)
    with xs old True show ?thesis by (intro pop_old) simp_all
  qed
next
  case False
  show ?thesis
  proof (cases "batch = []")
    case True
    with False have "select_step E domain concurrency batch s = s\<lparr>control := Finished\<rparr>"
      by (auto simp: select_step_def)
    with True show ?thesis by (rule stop)
  next
    case ne: False
    with False have "select_step E domain concurrency batch s =
         s\<lparr>dispatched := dispatched s @ [batch],
           control := Reduce (map (\<lambda>u. fetch_page E u domain)
                               (set_iter (iter_choice E) batch))\<rparr>"
      by (auto simp: select_step_def)
    with ne False show ?thesis by (intro dispatch)
  qed
qed

lemma sets_ok_init: "sets_ok (init_state start_url)"
  by (simp add: sets_ok_def init_state_def current_batch_def)

lemma sets_ok_step:
  assumes ok: "sets_ok s"
  shows "sets_ok (step E domain max_pages concurrency s)"
proof (cases "control s")
  case LoopHead
  with ok show ?thesis
    by (simp add: step_LoopHead loop_head_def sets_ok_def current_batch_def)
next
  case (Select batch)
  from ok Select have inv:
    "distinct (visited s)" "distinct (to_visit s)" "set (visited s) \<inter> set (to_visit s) = {}"
    "distinct (concat (dispatched s) @ batch)"
    "set (concat (dispatched s) @ batch) = set (visited s)"
    by (simp_all add: sets_ok_def current_batch_def)
  from Select show ?thesis
  proof (cases rule: select_step_cases [where E = E and domain = domain and concurrency = concurrency])
    case (pop_new u ys zs)
    from inv(5) pop_new(2) have "u \<notin> set batch" "u \<notin> set (concat (dispatched s))" by auto
    with inv pop_new show ?thesis
      by (auto simp: step_Select [OF Select] sets_ok_def current_batch_def set_add_new)
  next
    case (pop_old u ys zs)
    with inv show ?thesis
      by (auto simp: step_Select [OF Select] sets_ok_def current_batch_def)
  next
    case stop
    with inv show ?thesis
      by (simp add: step_Select [OF Select] sets_ok_def current_batch_def)
  next
    case dispatch
    with inv show ?thesis
      by (simp add: step_Select [OF Select] sets_ok_def current_batch_def)
  qed
next
  case (Reduce rs)
  show ?thesis
  proof (cases rs)
    case Nil
    with ok Reduce show ?thesis
      by (simp add: step_Reduce_Nil sets_ok_def current_batch_def)
  next
    case (Cons r rs')
    with ok Reduce show ?thesis
      by (simp add: step_Reduce_Cons reduce_step_def sets_ok_def current_batch_def
          split: option.split)
  qed
next
  case (Links ls rs)
  show ?thesis
  proof (cases ls)
    case Nil
    with ok Links show ?thesis
      by (simp add: step_Links_Nil sets_ok_def current_batch_def)
  next
    case (Cons l ls')
    with ok Links show ?thesis
      by (auto simp: step_Links_Cons link_step_def sets_ok_def current_batch_def
          set_set_add distinct_set_add)
  qed
next
  case Finished
  with ok show ?thesis by (simp add: step_Finished)
qed

lemma run_0: "run E domain max_pages concurrency start_url 0 = init_state start_url"
  by (simp add: run_def)

lemma run_Suc:
  "run E domain max_pages concurrency start_url (Suc n) =
   step E domain max_pages concurrency (run E domain max_pages concurrency start_url n)"
  by (simp add: run_def)

lemma sets_ok_run: "sets_ok (run E domain max_pages concurrency start_url n)"
  by (induction n) (simp_all add: run_0 run_Suc sets_ok_init sets_ok_step)

text \<open>
  C2: at every observation point of every run, no URL occurs twice in the batches
  dispatched so far, every dispatched URL is in \<open>visited\<close>, and \<open>visited\<close> and
  \<open>to_visit\<close> are disjoint.
\<close>

theorem no_url_dispatched_twice:
  "distinct (concat (dispatched (run E domain max_pages concurrency start_url n)))
   \<and> set (concat (dispatched (run E domain max_pages concurrency start_url n)))
       \<subseteq> set (visited (run E domain max_pages concurrency start_url n))
   \<and> set (visited (run E domain max_pages concurrency start_url n))
       \<inter> set (to_visit (run E domain max_pages concurrency start_url n)) = {}"
  using sets_ok_run [of E domain max_pages concurrency start_url n]
  by (auto simp: sets_ok_def)

section \<open>The frontier bound\<close>

definition frontier_ok :: "int \<Rightarrow> crawl_state \<Rightarrow> bool" where
  "frontier_ok max_pages s \<longleftrightarrow>
     int (length (to_visit s)) + int (length (visited s)) \<le> max 1 (max_pages * 2)"

lemma frontier_ok_init: "frontier_ok max_pages (init_state start_url)"
  by (simp add: frontier_ok_def init_state_def)

lemma frontier_ok_step:
  assumes ok: "frontier_ok max_pages s"
  shows "frontier_ok max_pages (step E domain max_pages concurrency s)"
proof (cases "control s")
  case LoopHead
  with ok show ?thesis
    by (simp add: step_LoopHead loop_head_def frontier_ok_def)
next
  case (Select batch)
  from Select show ?thesis
  proof (cases rule: select_step_cases [where E = E and domain = domain and concurrency = concurrency])
    case (pop_new u ys zs)
    with ok show ?thesis
      by (simp add: step_Select [OF Select] frontier_ok_def set_add_new)
  next
    case (pop_old u ys zs)
    with ok show ?thesis
      by (simp add: step_Select [OF Select] frontier_ok_def)
  next
    case stop
    with ok show ?thesis
      by (simp add: step_Select [OF Select] frontier_ok_def)
  next
    case dispatch
    with ok show ?thesis
      by (simp add: step_Select [OF Select] frontier_ok_def)
  qed
next
  case (Reduce rs)
  show ?thesis
  proof (cases rs)
    case Nil
    with ok Reduce show ?thesis
      by (simp add: step_Reduce_Nil frontier_ok_def)
  next
    case (Cons r rs')
    with ok Reduce show ?thesis
      by (simp add: step_Reduce_Cons reduce_step_def frontier_ok_def split: option.split)
  qed
next
  case (Links ls rs)
  show ?thesis
  proof (cases ls)
    case Nil
    with ok Links show ?thesis
      by (simp add: step_Links_Nil frontier_ok_def)
  next
    case (Cons l ls')
    have "length (set_add l (to_visit s)) \<le> Suc (length (to_visit s))"
      by (rule length_set_add)
    with ok Links Cons show ?thesis
      by (auto simp: step_Links_Cons link_step_def frontier_ok_def)
  qed
next
  case Finished
  with ok show ?thesis by (simp add: step_Finished)
qed

lemma frontier_ok_run: "frontier_ok max_pages (run E domain max_pages concurrency start_url n)"
  by (induction n) (simp_all add: run_0 run_Suc frontier_ok_init frontier_ok_step)

text \<open>Only a step at the head of the link loop can put a URL into \<open>to_visit\<close>.\<close>

lemma step_adds_link:
  assumes "u \<in> set (to_visit (step E domain max_pages concurrency s))"
    and "u \<notin> set (to_visit s)"
  shows "int (length (to_visit s)) + int (length (visited s)) < max_pages * 2"
proof (cases "control s")
  case LoopHead
  with assms show ?thesis
    by (simp add: step_LoopHead loop_head_def split: if_splits)
next
  case (Select batch)
  from Select show ?thesis
  proof (cases rule: select_step_cases [where E = E and domain = domain and concurrency = concurrency])
    case (pop_new u' ys zs)
    with assms show ?thesis by (auto simp: step_Select [OF Select])
  next
    case (pop_old u' ys zs)
    with assms show ?thesis by (auto simp: step_Select [OF Select])
  next
    case stop
    with assms show ?thesis by (simp add: step_Select [OF Select])
  next
    case dispatch
    with assms show ?thesis by (simp add: step_Select [OF Select])
  qed
next
  case (Reduce rs)
  show ?thesis
  proof (cases rs)
    case Nil
    with assms Reduce show ?thesis by (simp add: step_Reduce_Nil)
  next
    case (Cons r rs')
    with assms Reduce show ?thesis
      by (simp add: step_Reduce_Cons reduce_step_def split: option.splits)
  qed
next
  case (Links ls rs)
  show ?thesis
  proof (cases ls)
    case Nil
    with assms Links show ?thesis by (simp add: step_Links_Nil)
  next
    case (Cons l ls')
    with assms Links show ?thesis
      by (simp add: step_Links_Cons link_step_def split: if_splits)
  qed
next
  case Finished
  with assms show ?thesis by (simp add: step_Finished)
qed

text \<open>
  C4: for positive \<open>max_pages\<close> and \<open>concurrency\<close>, at every observation point
  \<open>len(to_visit) + len(visited) < 2 * max_pages + concurrency\<close>, and whenever the next
  step puts a URL into \<open>to_visit\<close> that was not there, \<open>len(to_visit) + len(visited)
  < 2 * max_pages\<close> held before that step.
\<close>

theorem frontier_bound:
  assumes "0 < max_pages" and "0 < concurrency"
  shows "int (length (to_visit (run E domain max_pages concurrency start_url n)))
           + int (length (visited (run E domain max_pages concurrency start_url n)))
         < 2 * max_pages + concurrency
       \<and> (\<forall>u. u \<in> set (to_visit (run E domain max_pages concurrency start_url (Suc n)))
              \<and> u \<notin> set (to_visit (run E domain max_pages concurrency start_url n))
            \<longrightarrow> int (length (to_visit (run E domain max_pages concurrency start_url n)))
                + int (length (visited (run E domain max_pages concurrency start_url n)))
                < 2 * max_pages)"
proof
  from frontier_ok_run [of max_pages E domain concurrency start_url n] assms
  show "int (length (to_visit (run E domain max_pages concurrency start_url n)))
           + int (length (visited (run E domain max_pages concurrency start_url n)))
         < 2 * max_pages + concurrency"
    by (simp add: frontier_ok_def)
  show "\<forall>u. u \<in> set (to_visit (run E domain max_pages concurrency start_url (Suc n)))
              \<and> u \<notin> set (to_visit (run E domain max_pages concurrency start_url n))
            \<longrightarrow> int (length (to_visit (run E domain max_pages concurrency start_url n)))
                + int (length (visited (run E domain max_pages concurrency start_url n)))
                < 2 * max_pages"
    using step_adds_link [of _ E domain max_pages concurrency
        "run E domain max_pages concurrency start_url n"]
    by (auto simp: run_Suc mult.commute)
qed

section \<open>The page budget and the counters\<close>

definition budget_ok :: "int \<Rightarrow> int \<Rightarrow> crawl_state \<Rightarrow> bool" where
  "budget_ok max_pages concurrency s =
     (case control s of
        LoopHead \<Rightarrow> pages_crawled (stats s) \<le> max_pages + concurrency - 1
      | Select batch \<Rightarrow>
          pages_crawled (stats s) < max_pages \<and> int (length batch) \<le> concurrency
      | Reduce rs \<Rightarrow> pages_crawled (stats s) + int (length rs) \<le> max_pages + concurrency - 1
      | Links ls rs \<Rightarrow> pages_crawled (stats s) + int (length rs) \<le> max_pages + concurrency - 1
      | Finished \<Rightarrow> pages_crawled (stats s) \<le> max_pages + concurrency - 1)"

lemma budget_ok_init:
  "0 < max_pages \<Longrightarrow> 0 < concurrency \<Longrightarrow> budget_ok max_pages concurrency (init_state start_url)"
  by (simp add: budget_ok_def init_state_def)

lemma budget_ok_step:
  assumes pos: "0 < concurrency" and ok: "budget_ok max_pages concurrency s"
  shows "budget_ok max_pages concurrency (step E domain max_pages concurrency s)"
proof (cases "control s")
  case LoopHead
  with ok pos show ?thesis
    by (simp add: step_LoopHead loop_head_def budget_ok_def)
next
  case (Select batch)
  from ok Select have inv: "pages_crawled (stats s) < max_pages" "int (length batch) \<le> concurrency"
    by (simp_all add: budget_ok_def)
  from Select show ?thesis
  proof (cases rule: select_step_cases [where E = E and domain = domain and concurrency = concurrency])
    case (pop_new u ys zs)
    have "length (set_add u batch) \<le> Suc (length batch)" by (rule length_set_add)
    with inv pop_new show ?thesis
      by (simp add: step_Select [OF Select] budget_ok_def)
  next
    case (pop_old u ys zs)
    with inv show ?thesis
      by (simp add: step_Select [OF Select] budget_ok_def)
  next
    case stop
    with inv pos show ?thesis
      by (simp add: step_Select [OF Select] budget_ok_def)
  next
    case dispatch
    with inv show ?thesis
      by (simp add: step_Select [OF Select] budget_ok_def set_iter_length)
  qed
next
  case (Reduce rs)
  show ?thesis
  proof (cases rs)
    case Nil
    with ok Reduce show ?thesis
      by (simp add: step_Reduce_Nil budget_ok_def)
  next
    case (Cons r rs')
    with ok Reduce show ?thesis
      by (simp add: step_Reduce_Cons reduce_step_def budget_ok_def split: option.split)
  qed
next
  case (Links ls rs)
  show ?thesis
  proof (cases ls)
    case Nil
    with ok Links show ?thesis
      by (simp add: step_Links_Nil budget_ok_def)
  next
    case (Cons l ls')
    with ok Links show ?thesis
      by (simp add: step_Links_Cons link_step_def budget_ok_def)
  qed
next
  case Finished
  with ok show ?thesis by (simp add: step_Finished)
qed

lemma budget_ok_run:
  "0 < max_pages \<Longrightarrow> 0 < concurrency \<Longrightarrow>
   budget_ok max_pages concurrency (run E domain max_pages concurrency start_url n)"
  by (induction n) (simp_all add: run_0 run_Suc budget_ok_init budget_ok_step)

lemma budget_ok_bound:
  "0 < concurrency \<Longrightarrow> budget_ok max_pages concurrency s \<Longrightarrow>
   pages_crawled (stats s) \<le> max_pages + concurrency - 1"
  by (cases "control s") (simp_all add: budget_ok_def)

text \<open>Only the selection loop dispatches, and it is entered below the budget.\<close>

lemma step_dispatches:
  assumes "dispatched (step E domain max_pages concurrency s) \<noteq> dispatched s"
  shows "\<exists>batch. control s = Select batch"
proof (cases "control s")
  case LoopHead
  with assms show ?thesis by (simp add: step_LoopHead loop_head_def split: if_splits)
next
  case (Select batch)
  then show ?thesis by simp
next
  case (Reduce rs)
  with assms show ?thesis
    by (cases rs) (simp_all add: step_Reduce_Nil step_Reduce_Cons reduce_step_def
        split: option.splits)
next
  case (Links ls rs)
  with assms show ?thesis
    by (cases ls) (simp_all add: step_Links_Nil step_Links_Cons link_step_def split: if_splits)
next
  case Finished
  with assms show ?thesis by (simp add: step_Finished)
qed

text \<open>
  The counter \<open>pages_crawled\<close> is tested against \<open>max_pages\<close> at the head of the
  outer loop only. For positive \<open>max_pages\<close> and \<open>concurrency\<close> it stays within
  \<open>max_pages + concurrency - 1\<close>, and a batch is dispatched only from a state with
  \<open>pages_crawled < max_pages\<close>.
\<close>

theorem pages_crawled_bound:
  assumes "0 < max_pages" and "0 < concurrency"
  shows "pages_crawled (stats (run E domain max_pages concurrency start_url n))
           \<le> max_pages + concurrency - 1
       \<and> (dispatched (run E domain max_pages concurrency start_url (Suc n))
              \<noteq> dispatched (run E domain max_pages concurrency start_url n)
            \<longrightarrow> pages_crawled (stats (run E domain max_pages concurrency start_url n))
                  < max_pages)"
proof -
  let ?s = "run E domain max_pages concurrency start_url n"
  have ok: "budget_ok max_pages concurrency ?s" using assms by (rule budget_ok_run)
  have "pages_crawled (stats ?s) \<le> max_pages + concurrency - 1"
    using assms(2) ok by (rule budget_ok_bound)
  moreover have "pages_crawled (stats ?s) < max_pages"
    if "dispatched (step E domain max_pages concurrency ?s) \<noteq> dispatched ?s"
  proof -
    from that obtain batch where "control ?s = Select batch"
      using step_dispatches by blast
    with ok show ?thesis by (simp add: budget_ok_def)
  qed
  ultimately show ?thesis by (simp add: run_Suc)
qed

text \<open>
  The fetch outcomes of all URLs dispatched so far, and how many responses of a list
  carry no page.
\<close>

definition absent_count :: "(PageData option \<times> string list) list \<Rightarrow> int" where
  "absent_count rs = int (length (filter (\<lambda>r. fst r = None) rs))"

definition present_count :: "(PageData option \<times> string list) list \<Rightarrow> int" where
  "present_count rs = int (length (filter (\<lambda>r. fst r \<noteq> None) rs))"

definition fetched :: "env \<Rightarrow> string \<Rightarrow> crawl_state \<Rightarrow> (PageData option \<times> string list) list" where
  "fetched E domain s = map (\<lambda>u. fetch_page E u domain) (concat (dispatched s))"

definition counts_ok :: "env \<Rightarrow> string \<Rightarrow> crawl_state \<Rightarrow> bool" where
  "counts_ok E domain s \<longleftrightarrow>
     pages_failed (stats s) = 0
     \<and> int (length (results s)) = pages_crawled (stats s)
     \<and> pages_filtered (stats s) + absent_count (pending_responses s)
         = absent_count (fetched E domain s)
     \<and> pages_crawled (stats s) + present_count (pending_responses s)
         = present_count (fetched E domain s)"

lemma absent_count_simps:
  "absent_count [] = 0"
  "absent_count (r # rs) = (if fst r = None then 1 else 0) + absent_count rs"
  "absent_count (rs @ rs') = absent_count rs + absent_count rs'"
  by (simp_all add: absent_count_def)

lemma present_count_simps:
  "present_count [] = 0"
  "present_count (r # rs) = (if fst r = None then 0 else 1) + present_count rs"
  "present_count (rs @ rs') = present_count rs + present_count rs'"
  by (simp_all add: present_count_def)

lemma absent_count_set_iter:
  "absent_count (map f (set_iter choice xs)) = absent_count (map f xs)"
  by (simp add: absent_count_def filter_map set_iter_filter_length)

lemma present_count_set_iter:
  "present_count (map f (set_iter choice xs)) = present_count (map f xs)"
  by (simp add: present_count_def filter_map set_iter_filter_length)

lemma counts_ok_init: "counts_ok E domain (init_state start_url)"
  by (simp add: counts_ok_def init_state_def pending_responses_def fetched_def
      absent_count_simps present_count_simps)

lemma counts_ok_step:
  assumes ok: "counts_ok E domain s"
  shows "counts_ok E domain (step E domain max_pages concurrency s)"
proof (cases "control s")
  case LoopHead
  with ok show ?thesis
    by (simp add: step_LoopHead loop_head_def counts_ok_def pending_responses_def fetched_def)
next
  case (Select batch)
  from Select show ?thesis
  proof (cases rule: select_step_cases [where E = E and domain = domain and concurrency = concurrency])
    case (pop_new u ys zs)
    with ok Select show ?thesis
      by (simp add: step_Select [OF Select] counts_ok_def pending_responses_def fetched_def)
  next
    case (pop_old u ys zs)
    with ok Select show ?thesis
      by (simp add: step_Select [OF Select] counts_ok_def pending_responses_def fetched_def)
  next
    case stop
    with ok Select show ?thesis
      by (simp add: step_Select [OF Select] counts_ok_def pending_responses_def fetched_def)
  next
    case dispatch
    with ok Select show ?thesis
      by (simp add: step_Select [OF Select] counts_ok_def pending_responses_def fetched_def
          absent_count_simps present_count_simps absent_count_set_iter present_count_set_iter)
  qed
next
  case (Reduce rs)
  show ?thesis
  proof (cases rs)
    case Nil
    with ok Reduce show ?thesis
      by (simp add: step_Reduce_Nil counts_ok_def pending_responses_def fetched_def)
  next
    case (Cons r rs')
    with ok Reduce show ?thesis
      by (auto simp: step_Reduce_Cons reduce_step_def counts_ok_def pending_responses_def
          fetched_def absent_count_simps present_count_simps split: option.split)
  qed
next
  case (Links ls rs)
  show ?thesis
  proof (cases ls)
    case Nil
    with ok Links show ?thesis
      by (simp add: step_Links_Nil counts_ok_def pending_responses_def fetched_def)
  next
    case (Cons l ls')
    with ok Links show ?thesis
      by (simp add: step_Links_Cons link_step_def counts_ok_def pending_responses_def fetched_def)
  qed
next
  case Finished
  with ok show ?thesis by (simp add: step_Finished)
qed

lemma counts_ok_run: "counts_ok E domain (run E domain max_pages concurrency start_url n)"
  by (induction n) (simp_all add: run_0 run_Suc counts_ok_init counts_ok_step)

section \<open>Termination\<close>

definition frontier_potential :: "int \<Rightarrow> crawl_state \<Rightarrow> nat" where
  "frontier_potential max_pages s =
     max (length (to_visit s) + length (visited s)) (nat (max_pages * 2)) - length (visited s)"

definition control_rank :: "crawl_state \<Rightarrow> nat" where
  "control_rank s =
     (case control s of
        Select batch \<Rightarrow> (if batch = [] then 1 else 4)
      | Reduce rs \<Rightarrow> 3
      | Links ls rs \<Rightarrow> 3
      | LoopHead \<Rightarrow> 2
      | Finished \<Rightarrow> 0)"

definition remaining_work :: "crawl_state \<Rightarrow> nat" where
  "remaining_work s =
     (case control s of
        Select batch \<Rightarrow> length (to_visit s)
      | Reduce rs \<Rightarrow> sum_list (map (\<lambda>r. 2 + length (snd r)) rs)
      | Links ls rs \<Rightarrow> 1 + length ls + sum_list (map (\<lambda>r. 2 + length (snd r)) rs)
      | LoopHead \<Rightarrow> 0
      | Finished \<Rightarrow> 0)"

lemma set_add_nonempty: "set_add x xs \<noteq> []"
  by (auto simp: set_add_def)

lemma step_decreases:
  assumes "control s \<noteq> Finished"
  shows "(step E domain max_pages concurrency s, s)
           \<in> measures [frontier_potential max_pages, control_rank, remaining_work]"
proof (cases "control s")
  case LoopHead
  then show ?thesis
    by (simp add: step_LoopHead loop_head_def frontier_potential_def control_rank_def)
next
  case (Select batch)
  from Select show ?thesis
  proof (cases rule: select_step_cases [where E = E and domain = domain and concurrency = concurrency])
    case (pop_new u ys zs)
    then have "frontier_potential max_pages (step E domain max_pages concurrency s)
        < frontier_potential max_pages s"
      by (simp add: step_Select [OF Select] frontier_potential_def set_add_new)
    then show ?thesis by simp
  next
    case (pop_old u ys zs)
    then have "frontier_potential max_pages (step E domain max_pages concurrency s)
        \<le> frontier_potential max_pages s"
      by (simp add: step_Select [OF Select] frontier_potential_def)
    moreover have "control_rank (step E domain max_pages concurrency s) = control_rank s"
      using pop_old Select by (simp add: step_Select [OF Select] control_rank_def)
    moreover have "remaining_work (step E domain max_pages concurrency s) < remaining_work s"
      using pop_old Select by (simp add: step_Select [OF Select] remaining_work_def)
    ultimately show ?thesis by auto
  next
    case stop
    with Select show ?thesis
      by (simp add: step_Select [OF Select] frontier_potential_def control_rank_def)
  next
    case dispatch
    with Select show ?thesis
      by (simp add: step_Select [OF Select] frontier_potential_def control_rank_def)
  qed
next
  case (Reduce rs)
  show ?thesis
  proof (cases rs)
    case Nil
    with Reduce show ?thesis
      by (simp add: step_Reduce_Nil frontier_potential_def control_rank_def)
  next
    case (Cons r rs')
    with Reduce show ?thesis
      by (simp add: step_Reduce_Cons reduce_step_def frontier_potential_def control_rank_def
          remaining_work_def split: option.split)
  qed
next
  case (Links ls rs)
  show ?thesis
  proof (cases ls)
    case Nil
    with Links show ?thesis
      by (simp add: step_Links_Nil frontier_potential_def control_rank_def remaining_work_def)
  next
    case (Cons l ls')
    have len: "length (set_add l (to_visit s)) \<le> Suc (length (to_visit s))"
      by (rule length_set_add)
    have "frontier_potential max_pages (step E domain max_pages concurrency s)
        = frontier_potential max_pages s"
      using Links Cons len
      by (auto simp: step_Links_Cons link_step_def frontier_potential_def)
    moreover have "control_rank (step E domain max_pages concurrency s) = control_rank s"
      using Links Cons by (simp add: step_Links_Cons link_step_def control_rank_def)
    moreover have "remaining_work (step E domain max_pages concurrency s) < remaining_work s"
      using Links Cons by (simp add: step_Links_Cons link_step_def remaining_work_def)
    ultimately show ?thesis by simp
  qed
next
  case Finished
  with assms show ?thesis by simp
qed

lemma crawl_loop_returns:
  "\<exists>t. crawl_loop E domain max_pages concurrency s = Some t"
  unfolding crawl_loop_def
proof (rule wf_while_option_Some [where P = "\<lambda>s. True"])
  have "{(t, s). (True \<and> control s \<noteq> Finished) \<and> t = step E domain max_pages concurrency s}
      \<subseteq> measures [frontier_potential max_pages, control_rank, remaining_work]"
    using step_decreases by auto
  then show "wf {(t, s). (True \<and> control s \<noteq> Finished)
      \<and> t = step E domain max_pages concurrency s}"
    by (rule wf_subset [OF wf_measures])
qed simp_all

lemma crawl_loop_is_run:
  assumes "crawl_loop E domain max_pages concurrency (init_state start_url) = Some t"
  shows "\<exists>n. t = run E domain max_pages concurrency start_url n \<and> control t = Finished"
  using while_option_stop2 [OF assms [unfolded crawl_loop_def]]
  by (auto simp: run_def)

lemma run_Finished_stays:
  "control (run E domain max_pages concurrency start_url n) = Finished \<Longrightarrow>
   run E domain max_pages concurrency start_url (n + k)
     = run E domain max_pages concurrency start_url n"
  by (induction k) (simp_all add: run_Suc step_Finished)

lemma run_Finished_unique:
  assumes "control (run E domain max_pages concurrency start_url n) = Finished"
    and "control (run E domain max_pages concurrency start_url k) = Finished"
  shows "run E domain max_pages concurrency start_url n
       = run E domain max_pages concurrency start_url k"
proof (cases "n \<le> k")
  case True
  then obtain j where "k = n + j" using le_Suc_ex by blast
  with assms(1) show ?thesis by (simp add: run_Finished_stays)
next
  case False
  then obtain j where "n = k + j" using le_Suc_ex [of k n] by auto
  with assms(2) show ?thesis by (simp add: run_Finished_stays)
qed

lemma crawl_loop_run:
  assumes "control (run E domain max_pages concurrency start_url n) = Finished"
  shows "crawl_loop E domain max_pages concurrency (init_state start_url)
       = Some (run E domain max_pages concurrency start_url n)"
proof -
  obtain t where t: "crawl_loop E domain max_pages concurrency (init_state start_url) = Some t"
    using crawl_loop_returns by blast
  from crawl_loop_is_run [OF t] obtain k
    where "t = run E domain max_pages concurrency start_url k" and "control t = Finished"
    by blast
  with assms have "t = run E domain max_pages concurrency start_url n"
    using run_Finished_unique by metis
  with t show ?thesis by simp
qed

text \<open>
  C3: for every seed URL, every \<open>max_pages\<close> and \<open>concurrency\<close> (positive or not)
  and every environment (so every link graph, finite or not, and every pop order), the
  batch loop of \<open>crawl_site\<close> reaches its end, and \<open>visited\<close> then holds at most
  \<open>max(1, 2 * max_pages)\<close> URLs.
\<close>

theorem crawl_loop_terminates:
  "\<exists>s. crawl_loop E domain max_pages concurrency (init_state start_url) = Some s
       \<and> control s = Finished
       \<and> int (length (visited s)) \<le> max 1 (max_pages * 2)"
proof -
  obtain t where t: "crawl_loop E domain max_pages concurrency (init_state start_url) = Some t"
    using crawl_loop_returns by blast
  from crawl_loop_is_run [OF t] obtain n
    where n: "t = run E domain max_pages concurrency start_url n" and fin: "control t = Finished"
    by blast
  have "frontier_ok max_pages t" unfolding n by (rule frontier_ok_run)
  then have "int (length (visited t)) \<le> max 1 (max_pages * 2)"
    by (simp add: frontier_ok_def)
  with t fin show ?thesis by blast
qed

text \<open>
  C6: when the seed URL parses, \<open>crawl\<close> returns, whatever the fetches did; it leaves
  with \<open>typer.Exit(1)\<close> exactly when \<open>pages_crawled\<close> is zero, which is exactly when
  the result list is empty, and it exports the results otherwise.
\<close>

theorem crawl_fails_iff_no_pages:
  assumes "get_domain (sanitize_url u) = Inr domain"
  shows "\<exists>s. crawl_loop E domain max_pages concurrency (init_state (sanitize_url u)) = Some s
           \<and> crawl E u max_pages concurrency
               = Some (if pages_crawled (stats s) = 0 then Exit 1 else Exported (results s))
           \<and> (pages_crawled (stats s) = 0 \<longleftrightarrow> results s = [])"
proof -
  obtain t where t: "crawl_loop E domain max_pages concurrency (init_state (sanitize_url u)) = Some t"
    using crawl_loop_returns by blast
  from crawl_loop_is_run [OF t] obtain n
    where n: "t = run E domain max_pages concurrency (sanitize_url u) n"
    by blast
  have "counts_ok E domain t" unfolding n by (rule counts_ok_run)
  then have eq: "pages_crawled (stats t) = 0 \<longleftrightarrow> results t = []"
    by (auto simp: counts_ok_def)
  have "crawl E u max_pages concurrency
      = Some (if pages_crawled (stats t) = 0 then Exit 1 else Exported (results t))"
    using assms t eq by (simp add: crawl_def crawl_site_def Let_def)
  with t eq show ?thesis by blast
qed

section \<open>The failure counter\<close>

lemma pending_responses_Finished: "control s = Finished \<Longrightarrow> pending_responses s = []"
  by (simp add: pending_responses_def)

text \<open>
  C10: \<open>pages_failed\<close> is 0 at every observation point and in the statistics the
  loop returns. Every fetch outcome without a page is counted in \<open>pages_filtered\<close>:
  at every observation point \<open>pages_filtered\<close> plus the number of absent pages among the
  responses still to be processed is the number of absent pages among all fetches so far,
  and in the returned statistics \<open>pages_filtered\<close> is that number.
\<close>

theorem pages_failed_stays_zero:
  "pages_failed (stats (run E domain max_pages concurrency start_url n)) = 0
   \<and> pages_filtered (stats (run E domain max_pages concurrency start_url n))
       + absent_count (pending_responses (run E domain max_pages concurrency start_url n))
       = absent_count (fetched E domain (run E domain max_pages concurrency start_url n))
   \<and> (\<forall>s. crawl_loop E domain max_pages concurrency (init_state start_url) = Some s
          \<longrightarrow> pages_failed (stats s) = 0
              \<and> pages_filtered (stats s) = absent_count (fetched E domain s))"
proof (intro conjI allI impI)
  have ok: "counts_ok E domain (run E domain max_pages concurrency start_url k)" for k
    by (rule counts_ok_run)
  from ok [of n] show "pages_failed (stats (run E domain max_pages concurrency start_url n)) = 0"
    by (simp add: counts_ok_def)
  from ok [of n] show "pages_filtered (stats (run E domain max_pages concurrency start_url n))
       + absent_count (pending_responses (run E domain max_pages concurrency start_url n))
       = absent_count (fetched E domain (run E domain max_pages concurrency start_url n))"
    by (simp add: counts_ok_def)
  fix s
  assume "crawl_loop E domain max_pages concurrency (init_state start_url) = Some s"
  from crawl_loop_is_run [OF this] obtain k
    where k: "s = run E domain max_pages concurrency start_url k" and fin: "control s = Finished"
    by blast
  from ok [of k] k show "pages_failed (stats s) = 0" by (simp add: counts_ok_def)
  from ok [of k] k fin show "pages_filtered (stats s) = absent_count (fetched E domain s)"
    by (simp add: counts_ok_def pending_responses_Finished absent_count_simps)
qed

section \<open>Properties of the page fetcher\<close>

lemma make_page_data_status: "status_code (make_page_data u r sp) = resp_status_code r"
  by (simp add: make_page_data_def Let_def split: option.split)

text \<open>
  C5, as the code has it: \<open>fetch_page\<close> returns \<open>(None, [])\<close> exactly when the
  request raises, or the content type does not contain \<open>text/html\<close>, or the parser
  raises, or resolving or filtering one of the links raises (the handlers of lines 161 to
  164 catch every exception). When none of these happens it returns a page record whose
  status code is the status code of the response, whatever that code is.
\<close>

theorem fetch_page_absent_iff:
  "(fetch_page E u domain = (None, []) \<longleftrightarrow>
      (case http_get E u of
         Inl e \<Rightarrow> True
       | Inr r \<Rightarrow>
           \<not> str_in ''text/html'' (content_type_of r)
           \<or> (case parse_html E (resp_text r) of
                 Inl e \<Rightarrow> True
               | Inr sp \<Rightarrow> isl (collect_links E u domain (soup_hrefs sp) []))))
   \<and> (\<forall>r sp links.
         http_get E u = Inr r \<and> str_in ''text/html'' (content_type_of r)
         \<and> parse_html E (resp_text r) = Inr sp
         \<and> collect_links E u domain (soup_hrefs sp) [] = Inr links
         \<longrightarrow> (\<exists>p. fetch_page E u domain = (Some p, links)
                  \<and> status_code p = resp_status_code r))"
  by (auto simp: fetch_page_def fetch_page_try_def make_page_data_status
      split: sum.splits py_exception.splits)

section \<open>Example sites\<close>

text \<open>
  Three small environments. In each, \<open>set.pop()\<close> and the iteration over a batch take
  the oldest element first, \<open>urljoin\<close> is applied to absolute references only (it
  parses the reference and returns it), and the body of a response stands for the
  document: it is the URL that was requested.
  \<^item> \<open>example_site\<close>: the seed page \<open>https://site.com\<close> links to \<open>/a\<close>, \<open>/b\<close> and
    \<open>/c\<close>; \<open>/a\<close> is an HTML page, \<open>/b\<close> answers 404 with an HTML body, the request
    for \<open>/c\<close> fails in transport.
  \<^item> \<open>dead_site\<close>: every request fails in transport.
  \<^item> \<open>bracket_site\<close>: every page is an HTML page whose only anchor is \<open>http://[\<close>.
\<close>

definition html_response :: "int \<Rightarrow> string \<Rightarrow> response" where
  "html_response code body =
     \<lparr> resp_status_code = code,
       resp_headers = [''content-type'' \<mapsto> ''text/html; charset=utf-8''],
       resp_text = body \<rparr>"

definition join_absolute :: "string \<Rightarrow> string \<Rightarrow> py_exception + string" where
  "join_absolute base href = (case urlparse href of Inl e \<Rightarrow> Inl e | Inr parts \<Rightarrow> Inr href)"

definition plain_soup :: "string list \<Rightarrow> soup" where
  "plain_soup hrefs =
     \<lparr> soup_title_string = None, soup_meta_content = None, soup_h1 = [], soup_h2 = [],
       soup_hrefs = hrefs \<rparr>"

definition example_site :: env where
  "example_site =
     \<lparr> http_get = (\<lambda>u. if u = ''https://site.com/c'' then Inl HTTPError
                        else Inr (html_response (if u = ''https://site.com/b'' then 404 else 200) u)),
       parse_html = (\<lambda>body. Inr (plain_soup
          (if body = ''https://site.com''
           then [''https://site.com/a'', ''https://site.com/b'', ''https://site.com/c'']
           else []))),
       urljoin = join_absolute,
       pop_choice = (\<lambda>xs. 0),
       iter_choice = (\<lambda>xs. 0) \<rparr>"

definition dead_site :: env where
  "dead_site =
     \<lparr> http_get = (\<lambda>u. Inl HTTPError),
       parse_html = (\<lambda>body. Inr (plain_soup [])),
       urljoin = join_absolute,
       pop_choice = (\<lambda>xs. 0),
       iter_choice = (\<lambda>xs. 0) \<rparr>"

definition bracket_site :: env where
  "bracket_site =
     \<lparr> http_get = (\<lambda>u. Inr (html_response 200 u)),
       parse_html = (\<lambda>body. Inr (plain_soup [''http://[''])),
       urljoin = join_absolute,
       pop_choice = (\<lambda>xs. 0),
       iter_choice = (\<lambda>xs. 0) \<rparr>"

text \<open>Explicit states and page records, for the runs below.\<close>

definition page :: "string \<Rightarrow> int \<Rightarrow> PageData" where
  "page u code =
     \<lparr> url = u, status_code = code, title = [], meta_description = [],
       h1_tags = [], h2_tags = [] \<rparr>"

definition st ::
  "string list \<Rightarrow> string list \<Rightarrow> PageData list \<Rightarrow> int \<Rightarrow> int \<Rightarrow> int \<Rightarrow> string list list
     \<Rightarrow> control \<Rightarrow> crawl_state"
where
  "st v t r crawled filtered found d k =
     \<lparr> visited = v, to_visit = t, results = r,
       stats = \<lparr> pages_crawled = crawled, pages_failed = 0, pages_filtered = filtered,
                 total_links_found = found \<rparr>,
       dispatched = d, control = k \<rparr>"

lemmas fetch_eval =
  fetch_page_def fetch_page_try_def content_type_of_def make_page_data_def
  html_response_def join_absolute_def plain_soup_def page_def url_eval

lemma example_site_fetch:
  "fetch_page example_site ''https://site.com'' ''https://site.com'' =
     (Some (page ''https://site.com'' 200),
      [''https://site.com/a'', ''https://site.com/b'', ''https://site.com/c''])"
  "fetch_page example_site ''https://site.com/a'' ''https://site.com'' =
     (Some (page ''https://site.com/a'' 200), [])"
  "fetch_page example_site ''https://site.com/b'' ''https://site.com'' =
     (Some (page ''https://site.com/b'' 404), [])"
  "fetch_page example_site ''https://site.com/c'' ''https://site.com'' = (None, [])"
  by (simp_all add: example_site_def fetch_eval)

lemma dead_site_fetch:
  "fetch_page dead_site u domain = (None, [])"
  by (simp add: dead_site_def fetch_page_def fetch_page_try_def)

lemma example_site_choice:
  "pop_choice example_site = (\<lambda>xs. 0)" "iter_choice example_site = (\<lambda>xs. 0)"
  by (simp_all add: example_site_def)

lemma dead_site_choice:
  "pop_choice dead_site = (\<lambda>xs. 0)" "iter_choice dead_site = (\<lambda>xs. 0)"
  by (simp_all add: dead_site_def)

lemmas example_site_eval = example_site_fetch example_site_choice

lemmas dead_site_eval = dead_site_fetch dead_site_choice

lemma run_numeral:
  "run E domain max_pages concurrency start_url (numeral k) =
   step E domain max_pages concurrency
     (run E domain max_pages concurrency start_url (pred_numeral k))"
  using run_Suc [of E domain max_pages concurrency start_url "pred_numeral k"]
  by (simp add: numeral_eq_Suc)

lemmas machine_eval =
  step_def loop_head_def select_step_def reduce_step_def link_step_def st_def
  set_add_def set_pop_def set_iter.simps

subsection \<open>A run over the example site\<close>

text \<open>
  \<open>max_pages = 2\<close>, \<open>concurrency = 3\<close>: the state after each of the 21 steps.
\<close>

lemma example_run_0:
  "run example_site ''https://site.com'' 2 3 ''https://site.com'' 0 =
     st [] [''https://site.com'']
       [] 0 0 0
       []
       (LoopHead)"
  by (simp add: run_0 init_state_def st_def)

lemma example_run_1:
  "run example_site ''https://site.com'' 2 3 ''https://site.com'' (Suc 0) =
     st [] [''https://site.com'']
       [] 0 0 0
       []
       (Select [])"
  by (subst run_Suc) (simp add: example_run_0 machine_eval example_site_eval)

lemma example_run_2:
  "run example_site ''https://site.com'' 2 3 ''https://site.com'' 2 =
     st [''https://site.com''] []
       [] 0 0 0
       []
       (Select [''https://site.com''])"
  by (subst run_numeral) (simp add: example_run_1 machine_eval example_site_eval)

lemma example_run_3:
  "run example_site ''https://site.com'' 2 3 ''https://site.com'' 3 =
     st [''https://site.com''] []
       [] 0 0 0
       [[''https://site.com'']]
       (Reduce [(Some (page ''https://site.com'' 200), [''https://site.com/a'', ''https://site.com/b'', ''https://site.com/c''])])"
  by (subst run_numeral) (simp add: example_run_2 machine_eval example_site_eval)

lemma example_run_4:
  "run example_site ''https://site.com'' 2 3 ''https://site.com'' 4 =
     st [''https://site.com''] []
       [page ''https://site.com'' 200] 1 0 3
       [[''https://site.com'']]
       (Links [''https://site.com/a'', ''https://site.com/b'', ''https://site.com/c''] [])"
  by (subst run_numeral) (simp add: example_run_3 machine_eval example_site_eval)

lemma example_run_5:
  "run example_site ''https://site.com'' 2 3 ''https://site.com'' 5 =
     st [''https://site.com''] [''https://site.com/a'']
       [page ''https://site.com'' 200] 1 0 3
       [[''https://site.com'']]
       (Links [''https://site.com/b'', ''https://site.com/c''] [])"
  by (subst run_numeral) (simp add: example_run_4 machine_eval example_site_eval)

lemma example_run_6:
  "run example_site ''https://site.com'' 2 3 ''https://site.com'' 6 =
     st [''https://site.com''] [''https://site.com/a'', ''https://site.com/b'']
       [page ''https://site.com'' 200] 1 0 3
       [[''https://site.com'']]
       (Links [''https://site.com/c''] [])"
  by (subst run_numeral) (simp add: example_run_5 machine_eval example_site_eval)

lemma example_run_7:
  "run example_site ''https://site.com'' 2 3 ''https://site.com'' 7 =
     st [''https://site.com''] [''https://site.com/a'', ''https://site.com/b'', ''https://site.com/c'']
       [page ''https://site.com'' 200] 1 0 3
       [[''https://site.com'']]
       (Links [] [])"
  by (subst run_numeral) (simp add: example_run_6 machine_eval example_site_eval)

lemma example_run_8:
  "run example_site ''https://site.com'' 2 3 ''https://site.com'' 8 =
     st [''https://site.com''] [''https://site.com/a'', ''https://site.com/b'', ''https://site.com/c'']
       [page ''https://site.com'' 200] 1 0 3
       [[''https://site.com'']]
       (Reduce [])"
  by (subst run_numeral) (simp add: example_run_7 machine_eval example_site_eval)

lemma example_run_9:
  "run example_site ''https://site.com'' 2 3 ''https://site.com'' 9 =
     st [''https://site.com''] [''https://site.com/a'', ''https://site.com/b'', ''https://site.com/c'']
       [page ''https://site.com'' 200] 1 0 3
       [[''https://site.com'']]
       (LoopHead)"
  by (subst run_numeral) (simp add: example_run_8 machine_eval example_site_eval)

lemma example_run_10:
  "run example_site ''https://site.com'' 2 3 ''https://site.com'' 10 =
     st [''https://site.com''] [''https://site.com/a'', ''https://site.com/b'', ''https://site.com/c'']
       [page ''https://site.com'' 200] 1 0 3
       [[''https://site.com'']]
       (Select [])"
  by (subst run_numeral) (simp add: example_run_9 machine_eval example_site_eval)

lemma example_run_11:
  "run example_site ''https://site.com'' 2 3 ''https://site.com'' 11 =
     st [''https://site.com'', ''https://site.com/a''] [''https://site.com/b'', ''https://site.com/c'']
       [page ''https://site.com'' 200] 1 0 3
       [[''https://site.com'']]
       (Select [''https://site.com/a''])"
  by (subst run_numeral) (simp add: example_run_10 machine_eval example_site_eval)

lemma example_run_12:
  "run example_site ''https://site.com'' 2 3 ''https://site.com'' 12 =
     st [''https://site.com'', ''https://site.com/a'', ''https://site.com/b''] [''https://site.com/c'']
       [page ''https://site.com'' 200] 1 0 3
       [[''https://site.com'']]
       (Select [''https://site.com/a'', ''https://site.com/b''])"
  by (subst run_numeral) (simp add: example_run_11 machine_eval example_site_eval)

lemma example_run_13:
  "run example_site ''https://site.com'' 2 3 ''https://site.com'' 13 =
     st [''https://site.com'', ''https://site.com/a'', ''https://site.com/b'', ''https://site.com/c''] []
       [page ''https://site.com'' 200] 1 0 3
       [[''https://site.com'']]
       (Select [''https://site.com/a'', ''https://site.com/b'', ''https://site.com/c''])"
  by (subst run_numeral) (simp add: example_run_12 machine_eval example_site_eval)

lemma example_run_14:
  "run example_site ''https://site.com'' 2 3 ''https://site.com'' 14 =
     st [''https://site.com'', ''https://site.com/a'', ''https://site.com/b'', ''https://site.com/c''] []
       [page ''https://site.com'' 200] 1 0 3
       [[''https://site.com''], [''https://site.com/a'', ''https://site.com/b'', ''https://site.com/c'']]
       (Reduce [(Some (page ''https://site.com/a'' 200), []), (Some (page ''https://site.com/b'' 404), []), (None, [])])"
  by (subst run_numeral) (simp add: example_run_13 machine_eval example_site_eval)

lemma example_run_15:
  "run example_site ''https://site.com'' 2 3 ''https://site.com'' 15 =
     st [''https://site.com'', ''https://site.com/a'', ''https://site.com/b'', ''https://site.com/c''] []
       [page ''https://site.com'' 200, page ''https://site.com/a'' 200] 2 0 3
       [[''https://site.com''], [''https://site.com/a'', ''https://site.com/b'', ''https://site.com/c'']]
       (Links [] [(Some (page ''https://site.com/b'' 404), []), (None, [])])"
  by (subst run_numeral) (simp add: example_run_14 machine_eval example_site_eval)

lemma example_run_16:
  "run example_site ''https://site.com'' 2 3 ''https://site.com'' 16 =
     st [''https://site.com'', ''https://site.com/a'', ''https://site.com/b'', ''https://site.com/c''] []
       [page ''https://site.com'' 200, page ''https://site.com/a'' 200] 2 0 3
       [[''https://site.com''], [''https://site.com/a'', ''https://site.com/b'', ''https://site.com/c'']]
       (Reduce [(Some (page ''https://site.com/b'' 404), []), (None, [])])"
  by (subst run_numeral) (simp add: example_run_15 machine_eval example_site_eval)

lemma example_run_17:
  "run example_site ''https://site.com'' 2 3 ''https://site.com'' 17 =
     st [''https://site.com'', ''https://site.com/a'', ''https://site.com/b'', ''https://site.com/c''] []
       [page ''https://site.com'' 200, page ''https://site.com/a'' 200, page ''https://site.com/b'' 404] 3 0 3
       [[''https://site.com''], [''https://site.com/a'', ''https://site.com/b'', ''https://site.com/c'']]
       (Links [] [(None, [])])"
  by (subst run_numeral) (simp add: example_run_16 machine_eval example_site_eval)

lemma example_run_18:
  "run example_site ''https://site.com'' 2 3 ''https://site.com'' 18 =
     st [''https://site.com'', ''https://site.com/a'', ''https://site.com/b'', ''https://site.com/c''] []
       [page ''https://site.com'' 200, page ''https://site.com/a'' 200, page ''https://site.com/b'' 404] 3 0 3
       [[''https://site.com''], [''https://site.com/a'', ''https://site.com/b'', ''https://site.com/c'']]
       (Reduce [(None, [])])"
  by (subst run_numeral) (simp add: example_run_17 machine_eval example_site_eval)

lemma example_run_19:
  "run example_site ''https://site.com'' 2 3 ''https://site.com'' 19 =
     st [''https://site.com'', ''https://site.com/a'', ''https://site.com/b'', ''https://site.com/c''] []
       [page ''https://site.com'' 200, page ''https://site.com/a'' 200, page ''https://site.com/b'' 404] 3 1 3
       [[''https://site.com''], [''https://site.com/a'', ''https://site.com/b'', ''https://site.com/c'']]
       (Reduce [])"
  by (subst run_numeral) (simp add: example_run_18 machine_eval example_site_eval)

lemma example_run_20:
  "run example_site ''https://site.com'' 2 3 ''https://site.com'' 20 =
     st [''https://site.com'', ''https://site.com/a'', ''https://site.com/b'', ''https://site.com/c''] []
       [page ''https://site.com'' 200, page ''https://site.com/a'' 200, page ''https://site.com/b'' 404] 3 1 3
       [[''https://site.com''], [''https://site.com/a'', ''https://site.com/b'', ''https://site.com/c'']]
       (LoopHead)"
  by (subst run_numeral) (simp add: example_run_19 machine_eval example_site_eval)

lemma example_run_21:
  "run example_site ''https://site.com'' 2 3 ''https://site.com'' 21 =
     st [''https://site.com'', ''https://site.com/a'', ''https://site.com/b'', ''https://site.com/c''] []
       [page ''https://site.com'' 200, page ''https://site.com/a'' 200, page ''https://site.com/b'' 404] 3 1 3
       [[''https://site.com''], [''https://site.com/a'', ''https://site.com/b'', ''https://site.com/c'']]
       (Finished)"
  by (subst run_numeral) (simp add: example_run_20 machine_eval example_site_eval)

subsection \<open>A run over the dead site\<close>

lemma dead_run_0:
  "run dead_site ''https://site.com'' 2 3 ''https://site.com'' 0 =
     st [] [''https://site.com'']
       [] 0 0 0
       []
       (LoopHead)"
  by (simp add: run_0 init_state_def st_def)

lemma dead_run_1:
  "run dead_site ''https://site.com'' 2 3 ''https://site.com'' (Suc 0) =
     st [] [''https://site.com'']
       [] 0 0 0
       []
       (Select [])"
  by (subst run_Suc) (simp add: dead_run_0 machine_eval dead_site_eval)

lemma dead_run_2:
  "run dead_site ''https://site.com'' 2 3 ''https://site.com'' 2 =
     st [''https://site.com''] []
       [] 0 0 0
       []
       (Select [''https://site.com''])"
  by (subst run_numeral) (simp add: dead_run_1 machine_eval dead_site_eval)

lemma dead_run_3:
  "run dead_site ''https://site.com'' 2 3 ''https://site.com'' 3 =
     st [''https://site.com''] []
       [] 0 0 0
       [[''https://site.com'']]
       (Reduce [(None, [])])"
  by (subst run_numeral) (simp add: dead_run_2 machine_eval dead_site_eval)

lemma dead_run_4:
  "run dead_site ''https://site.com'' 2 3 ''https://site.com'' 4 =
     st [''https://site.com''] []
       [] 0 1 0
       [[''https://site.com'']]
       (Reduce [])"
  by (subst run_numeral) (simp add: dead_run_3 machine_eval dead_site_eval)

lemma dead_run_5:
  "run dead_site ''https://site.com'' 2 3 ''https://site.com'' 5 =
     st [''https://site.com''] []
       [] 0 1 0
       [[''https://site.com'']]
       (LoopHead)"
  by (subst run_numeral) (simp add: dead_run_4 machine_eval dead_site_eval)

lemma dead_run_6:
  "run dead_site ''https://site.com'' 2 3 ''https://site.com'' 6 =
     st [''https://site.com''] []
       [] 0 1 0
       [[''https://site.com'']]
       (Finished)"
  by (subst run_numeral) (simp add: dead_run_5 machine_eval dead_site_eval)

subsection \<open>The results of the two runs\<close>

lemma example_loop:
  "crawl_loop example_site ''https://site.com'' 2 3 (init_state ''https://site.com'') =
     Some (st [''https://site.com'', ''https://site.com/a'', ''https://site.com/b'',
               ''https://site.com/c''] []
              [page ''https://site.com'' 200, page ''https://site.com/a'' 200,
               page ''https://site.com/b'' 404] 3 1 3
              [[''https://site.com''],
               [''https://site.com/a'', ''https://site.com/b'', ''https://site.com/c'']]
              Finished)"
proof -
  have "control (run example_site ''https://site.com'' 2 3 ''https://site.com'' 21) = Finished"
    by (simp add: example_run_21 st_def)
  from crawl_loop_run [OF this] show ?thesis by (simp add: example_run_21)
qed

lemma dead_loop:
  "crawl_loop dead_site ''https://site.com'' 2 3 (init_state ''https://site.com'') =
     Some (st [''https://site.com''] [] [] 0 1 0 [[''https://site.com'']] Finished)"
proof -
  have "control (run dead_site ''https://site.com'' 2 3 ''https://site.com'' 6) = Finished"
    by (simp add: dead_run_6 st_def)
  from crawl_loop_run [OF this] show ?thesis by (simp add: dead_run_6)
qed

lemma sanitize_example: "sanitize_url ''Site.com/'' = ''https://site.com''"
  by (simp add: sanitize_url_def startswith_def url_eval)

lemma domain_example: "get_domain ''https://site.com'' = Inr ''https://site.com''"
  by (simp add: url_eval)

text \<open>
  C1 fails on the example site: with \<open>max_pages = 2\<close> and \<open>concurrency = 3\<close> the
  second batch is entered with one page crawled and holds three URLs, and
  \<open>crawl_site\<close> returns three pages and \<open>pages_crawled = 3\<close>.
\<close>

theorem budget_exceeded_example:
  "crawl_site example_site ''https://site.com'' 2 3 =
     Inr (Some ([page ''https://site.com'' 200, page ''https://site.com/a'' 200,
                 page ''https://site.com/b'' 404],
                \<lparr> pages_crawled = 3, pages_failed = 0, pages_filtered = 1,
                  total_links_found = 3 \<rparr>))
   \<and> \<not> (3::int) \<le> 2"
  by (simp add: crawl_site_def domain_example example_loop st_def)

text \<open>
  The bound of \<open>pages_crawled_bound\<close> on the same run: the second batch is
  dispatched at step 14, from a state with one page crawled.
\<close>

theorem pages_crawled_bound_witness:
  "(0::int) < 2 \<and> (0::int) < 3
   \<and> pages_crawled (stats (run example_site ''https://site.com'' 2 3 ''https://site.com'' 13))
       \<le> 2 + 3 - 1
   \<and> dispatched (run example_site ''https://site.com'' 2 3 ''https://site.com'' 14)
       \<noteq> dispatched (run example_site ''https://site.com'' 2 3 ''https://site.com'' 13)
   \<and> pages_crawled (stats (run example_site ''https://site.com'' 2 3 ''https://site.com'' 13))
       < 2"
  using pages_crawled_bound [of 2 3 example_site "''https://site.com''" "''https://site.com''" 13]
  by (simp add: example_run_13 example_run_14 st_def)

text \<open>
  C4 on the same run: at step 4 the frontier holds one URL, and step 5 adds \<open>/a\<close>
  to \<open>to_visit\<close>.
\<close>

theorem frontier_bound_witness:
  "(0::int) < 2 \<and> (0::int) < 3
   \<and> int (length (to_visit (run example_site ''https://site.com'' 2 3 ''https://site.com'' 4)))
       + int (length (visited (run example_site ''https://site.com'' 2 3 ''https://site.com'' 4)))
       < 2 * 2 + 3
   \<and> ''https://site.com/a''
         \<in> set (to_visit (run example_site ''https://site.com'' 2 3 ''https://site.com'' 5))
   \<and> ''https://site.com/a''
         \<notin> set (to_visit (run example_site ''https://site.com'' 2 3 ''https://site.com'' 4))
   \<and> int (length (to_visit (run example_site ''https://site.com'' 2 3 ''https://site.com'' 4)))
       + int (length (visited (run example_site ''https://site.com'' 2 3 ''https://site.com'' 4)))
       < 2 * 2"
  using frontier_bound [of 2 3 example_site "''https://site.com''" "''https://site.com''" 4]
  by (simp add: example_run_4 example_run_5 st_def)

text \<open>
  C6 on both sites, from the seed \<open>Site.com/\<close>: the dead site ends in
  \<open>typer.Exit(1)\<close>, the example site in an export of its three pages.
\<close>

theorem crawl_fails_iff_no_pages_witness:
  "get_domain (sanitize_url ''Site.com/'') = Inr ''https://site.com''
   \<and> crawl dead_site ''Site.com/'' 2 3 = Some (Exit 1)
   \<and> crawl example_site ''Site.com/'' 2 3 =
       Some (Exported [page ''https://site.com'' 200, page ''https://site.com/a'' 200,
                       page ''https://site.com/b'' 404])"
proof -
  have dom: "get_domain (sanitize_url ''Site.com/'') = Inr ''https://site.com''"
    by (simp add: sanitize_example domain_example)
  from crawl_fails_iff_no_pages [OF dom, of dead_site 2 3]
  have "crawl dead_site ''Site.com/'' 2 3 = Some (Exit 1)"
    by (simp add: sanitize_example dead_loop st_def)
  moreover from crawl_fails_iff_no_pages [OF dom, of example_site 2 3]
  have "crawl example_site ''Site.com/'' 2 3 =
       Some (Exported [page ''https://site.com'' 200, page ''https://site.com/a'' 200,
                       page ''https://site.com/b'' 404])"
    by (simp add: sanitize_example example_loop st_def)
  ultimately show ?thesis using dom by simp
qed

text \<open>
  C10 on the example site: the loop returns with \<open>pages_failed = 0\<close> and
  \<open>pages_filtered = 1\<close>, and one of the four fetches (the one of \<open>/c\<close>) gave no
  page.
\<close>

theorem pages_failed_stays_zero_witness:
  "crawl_loop example_site ''https://site.com'' 2 3 (init_state ''https://site.com'') =
     Some (st [''https://site.com'', ''https://site.com/a'', ''https://site.com/b'',
               ''https://site.com/c''] []
              [page ''https://site.com'' 200, page ''https://site.com/a'' 200,
               page ''https://site.com/b'' 404] 3 1 3
              [[''https://site.com''],
               [''https://site.com/a'', ''https://site.com/b'', ''https://site.com/c'']]
              Finished)
   \<and> pages_failed (stats (st [''https://site.com'', ''https://site.com/a'',
               ''https://site.com/b'', ''https://site.com/c''] []
              [page ''https://site.com'' 200, page ''https://site.com/a'' 200,
               page ''https://site.com/b'' 404] 3 1 3
              [[''https://site.com''],
               [''https://site.com/a'', ''https://site.com/b'', ''https://site.com/c'']]
              Finished)) = 0
   \<and> absent_count (fetched example_site ''https://site.com''
          (st [''https://site.com'', ''https://site.com/a'', ''https://site.com/b'',
               ''https://site.com/c''] []
              [page ''https://site.com'' 200, page ''https://site.com/a'' 200,
               page ''https://site.com/b'' 404] 3 1 3
              [[''https://site.com''],
               [''https://site.com/a'', ''https://site.com/b'', ''https://site.com/c'']]
              Finished)) = 1"
  using pages_failed_stays_zero [of example_site "''https://site.com''" 2 3 "''https://site.com''" 0]
    example_loop
  by (simp add: st_def)

text \<open>
  C5 as stated fails on the bracket site: the request succeeds with an HTML content
  type, \<open>urljoin\<close> raises \<open>ValueError\<close> on the anchor \<open>http://[\<close>, and
  \<open>fetch_page\<close> returns \<open>(None, [])\<close>.
\<close>

theorem fetch_page_absent_counterexample:
  "http_get bracket_site ''https://site.com'' = Inr (html_response 200 ''https://site.com'')
   \<and> str_in ''text/html'' (content_type_of (html_response 200 ''https://site.com''))
   \<and> fetch_page bracket_site ''https://site.com'' ''https://site.com'' = (None, [])"
  by (simp add: bracket_site_def fetch_eval)

text \<open>
  C5 on the example site: \<open>/b\<close> answers 404 with an HTML body and yields a page
  record with status code 404; the request for \<open>/c\<close> raises and yields no page.
\<close>

theorem fetch_page_absent_iff_witness:
  "http_get example_site ''https://site.com/b'' = Inr (html_response 404 ''https://site.com/b'')
   \<and> str_in ''text/html'' (content_type_of (html_response 404 ''https://site.com/b''))
   \<and> parse_html example_site (resp_text (html_response 404 ''https://site.com/b''))
       = Inr (plain_soup [])
   \<and> collect_links example_site ''https://site.com/b'' ''https://site.com''
        (soup_hrefs (plain_soup [])) [] = Inr []
   \<and> (\<exists>p. fetch_page example_site ''https://site.com/b'' ''https://site.com'' = (Some p, [])
          \<and> status_code p = 404)
   \<and> fetch_page example_site ''https://site.com/c'' ''https://site.com'' = (None, [])
   \<and> http_get example_site ''https://site.com/c'' = Inl HTTPError"
  using fetch_page_absent_iff [of example_site "''https://site.com/b''" "''https://site.com''"]
    fetch_page_absent_iff [of example_site "''https://site.com/c''" "''https://site.com''"]
  by (simp add: example_site_def html_response_def plain_soup_def content_type_of_def
      str_in_def sublist_code)

end
